theory Spec2Isabelle
  imports Complex_Main "HOL-Library.AList"
begin

section \<open>Numbers of the source\<close>

text \<open>
  Python floats are modelled as real numbers (no NaN, no rounding error of the arithmetic
  itself); \<open>float('inf')\<close>, which the source uses as the initial session best time and
  as the initial value of a minimum search, is the extra value \<open>PosInf\<close>.
\<close>

datatype 'a with_inf = Fin 'a | PosInf

fun lt_inf :: "'a::linorder \<Rightarrow> 'a with_inf \<Rightarrow> bool" where
  "lt_inf x PosInf = True"
| "lt_inf x (Fin y) = (x < y)"


text \<open>
  \<open>round(x, n)\<close> of Python: the nearest multiple of \<open>10^-n\<close>, a tie going to the even
  neighbour.
\<close>

definition round_half_even :: "real \<Rightarrow> int" where
  "round_half_even y =
     (let f = \<lfloor>y\<rfloor>; d = y - of_int f
      in if d < 1 / 2 then f else if 1 / 2 < d then f + 1 else if even f then f else f + 1)"

definition py_round :: "real \<Rightarrow> nat \<Rightarrow> real" where
  "py_round x n = of_int (round_half_even (x * 10 ^ n)) / 10 ^ n"

section \<open>Lap telemetry data structures\<close>

text \<open>The dataclasses \<open>TelemetryPoint\<close> and \<open>LapData\<close> (field \<open>id\<close> is \<open>lapId\<close> here).\<close>

record TelemetryPoint =
  distancePct :: real
  speed :: real
  throttle :: real
  brake :: real
  gear :: int
  rpm :: real
  steeringAngle :: real

record LapData =
  lapId :: string
  lapNumber :: int
  lapTime :: real
  isSessionBest :: bool
  trackName :: string
  carName :: string
  completedAt :: int
  points :: "TelemetryPoint list"
  deltaToSessionBest :: real

text \<open>
  The attributes of \<open>LapStorageService\<close>. The dict \<open>laps\<close> keeps insertion order, which
  the eviction loop iterates in, so it is an association list: assigning to a new key
  appends, assigning to a present key replaces in place (\<open>AList.update\<close>), \<open>del\<close> removes
  (\<open>AList.delete\<close>).
\<close>

record LapStorageService =
  max_laps :: int
  laps :: "(string \<times> LapData) list"
  session_best_id :: "string option"
  session_best_time :: "real with_inf"
  current_lap_points :: "TelemetryPoint list"
  current_lap_number :: int
  recording_active :: bool
  last_capture_time :: real
  last_distance_pct :: real
  pending_lap_points :: "TelemetryPoint list"
  pending_lap_number :: int
  pending_lap_track :: string
  pending_lap_car :: string
  pending_lap_created_at :: real

definition MAX_STORED_LAPS :: int where
  "MAX_STORED_LAPS = 10"

definition MIN_LAP_POINTS :: nat where
  "MIN_LAP_POINTS = 100"

definition LAP_CAPTURE_INTERVAL :: real where
  "LAP_CAPTURE_INTERVAL = 5 / 100"

text \<open>\<open>LapStorageService.__init__(max_laps)\<close>.\<close>

definition init_storage :: "int \<Rightarrow> LapStorageService" where
  "init_storage m =
     \<lparr> max_laps = m, laps = [], session_best_id = None, session_best_time = PosInf,
       current_lap_points = [], current_lap_number = 0, recording_active = False,
       last_capture_time = 0, last_distance_pct = 0,
       pending_lap_points = [], pending_lap_number = 0, pending_lap_track = [],
       pending_lap_car = [], pending_lap_created_at = 0 \<rparr>"

section \<open>LapStorageService of the iRacing adapter\<close>

definition start_lap :: "int \<Rightarrow> LapStorageService \<Rightarrow> LapStorageService" where
  "start_lap lap_number s =
     s\<lparr> current_lap_points := [], current_lap_number := lap_number,
        recording_active := True, last_distance_pct := 0 \<rparr>"

definition add_point :: "TelemetryPoint \<Rightarrow> LapStorageService \<Rightarrow> LapStorageService" where
  "add_point point s =
     (if \<not> recording_active s then s
      else if last_distance_pct s \<le> distancePct point \<or> distancePct point < 5 / 100 then
        s\<lparr> current_lap_points := current_lap_points s @ [point],
           last_distance_pct := distancePct point \<rparr>
      else s)"

text \<open>
  The \<open>for\<close> loop of \<open>_enforce_limit\<close>: the first lap, in insertion order, of strictly
  smallest \<open>completedAt\<close> among those whose id is not \<open>session_best_id\<close>. The accumulator
  is the pair \<open>(oldest_id, oldest_time)\<close>.
\<close>

fun oldest_scan ::
  "string option \<Rightarrow> (string \<times> LapData) list \<Rightarrow> string option \<times> int with_inf
     \<Rightarrow> string option \<times> int with_inf" where
  "oldest_scan best [] acc = acc"
| "oldest_scan best ((lap_id, lap) # rest) (oldest_id, oldest_time) =
     (if Some lap_id \<noteq> best \<and> lt_inf (completedAt lap) oldest_time
      then oldest_scan best rest (Some lap_id, Fin (completedAt lap))
      else oldest_scan best rest (oldest_id, oldest_time))"

definition find_oldest :: "LapStorageService \<Rightarrow> string option" where
  "find_oldest s = fst (oldest_scan (session_best_id s) (laps s) (None, PosInf))"

lemma oldest_scan_key:
  "fst (oldest_scan best al acc) = Some k \<Longrightarrow> k \<in> fst ` set al \<or> fst acc = Some k"
proof (induction al arbitrary: acc)
  case Nil
  then show ?case by simp
next
  case (Cons p al)
  obtain i l where p: "p = (i, l)" by (cases p)
  obtain oi ot where acc: "acc = (oi, ot)" by (cases acc)
  show ?case
  proof (cases "Some i \<noteq> best \<and> lt_inf (completedAt l) ot")
    case True
    with Cons.prems p acc
    have "fst (oldest_scan best al (Some i, Fin (completedAt l))) = Some k" by simp
    from Cons.IH [OF this] show ?thesis using p by auto
  next
    case False
    with Cons.prems p acc have "fst (oldest_scan best al (oi, ot)) = Some k" by auto
    from Cons.IH [OF this] show ?thesis using p acc by auto
  qed
qed

lemma find_oldest_key: "find_oldest s = Some k \<Longrightarrow> k \<in> fst ` set (laps s)"
  using oldest_scan_key [of "session_best_id s" "laps s" "(None, PosInf)" k]
  by (simp add: find_oldest_def)

lemma length_delete_less:
  "k \<in> fst ` set al \<Longrightarrow> length (AList.delete k al) < length al"
proof (induction al)
  case Nil
  then show ?case by simp
next
  case (Cons p al)
  show ?case
  proof (cases "fst p = k")
    case True
    have "length (AList.delete k al) \<le> length al" by (rule AList.length_delete_le)
    with True show ?thesis by (cases p) simp
  next
    case False
    with Cons.prems have "k \<in> fst ` set al" by auto
    from Cons.IH [OF this] False show ?thesis by (cases p) simp
  qed
qed

text \<open>
  The \<open>while\<close> loop of \<open>_enforce_limit\<close>. \<open>if oldest_id:\<close> is Python truthiness: an id
  was found and it is not the empty string.
\<close>

function enforce_limit :: "LapStorageService \<Rightarrow> LapStorageService" where
  "enforce_limit s =
     (if max_laps s < int (length (laps s)) then
        (case find_oldest s of
           Some oldest_id \<Rightarrow>
             if oldest_id \<noteq> [] then enforce_limit (s\<lparr> laps := AList.delete oldest_id (laps s) \<rparr>)
             else s
         | None \<Rightarrow> s)
      else s)"
  by pat_completeness auto
termination
  by (relation "measure (\<lambda>s. length (laps s))")
     (auto dest!: find_oldest_key intro: length_delete_less)

declare enforce_limit.simps [simp del]

text \<open>
  The flag of the previous best is cleared in place, when \<open>session_best_id\<close> is set (and
  not the empty string) and names a stored lap.
\<close>

definition unmark_previous_best :: "LapStorageService \<Rightarrow> (string \<times> LapData) list" where
  "unmark_previous_best s =
     (case session_best_id s of
        Some b \<Rightarrow>
          if b \<noteq> [] \<and> b \<in> fst ` set (laps s)
          then AList.map_entry b (\<lambda>l. l\<lparr> isSessionBest := False \<rparr>) (laps s)
          else laps s
      | None \<Rightarrow> laps s)"

definition delta_to_best :: "real \<Rightarrow> real with_inf \<Rightarrow> real" where
  "delta_to_best lap_time best =
     (case best of Fin b \<Rightarrow> py_round (lap_time - b) 3 | PosInf \<Rightarrow> 0)"

text \<open>
  \<open>complete_lap\<close>. The two values the method reads from its environment are arguments:
  \<open>lap_id\<close>, the first 8 characters of a fresh uuid4, and \<open>now_ms\<close>, the clock in
  milliseconds. The result is the returned lap (or \<open>None\<close>) and the new state.
\<close>

definition complete_lap ::
  "string \<Rightarrow> int \<Rightarrow> real \<Rightarrow> string \<Rightarrow> string \<Rightarrow> LapStorageService
     \<Rightarrow> LapData option \<times> LapStorageService" where
  "complete_lap lap_id now_ms lap_time track_name car_name s =
     (if \<not> recording_active s \<or> length (current_lap_points s) < 100 then
        (None, s\<lparr> recording_active := False \<rparr>)
      else if lap_time < 10 \<or> 1200 < lap_time then
        (None, s\<lparr> recording_active := False, current_lap_points := [] \<rparr>)
      else
        let is_session_best = lt_inf lap_time (session_best_time s);
            lap = \<lparr> lapId = lap_id, lapNumber = current_lap_number s,
                    lapTime = py_round lap_time 3, isSessionBest = is_session_best,
                    trackName = track_name, carName = car_name, completedAt = now_ms,
                    points = current_lap_points s,
                    deltaToSessionBest = delta_to_best lap_time (session_best_time s) \<rparr>;
            s1 = (if is_session_best
                  then s\<lparr> laps := unmark_previous_best s, session_best_id := Some lap_id,
                          session_best_time := Fin lap_time \<rparr>
                  else s);
            s2 = s1\<lparr> laps := AList.update lap_id lap (laps s1) \<rparr>;
            s3 = enforce_limit s2
        in (Some lap, s3\<lparr> recording_active := False, current_lap_points := [] \<rparr>))"

text \<open>\<open>save_pending_lap\<close>: the same completion on the pending buffer.\<close>

definition save_pending_lap ::
  "string \<Rightarrow> int \<Rightarrow> real \<Rightarrow> LapStorageService \<Rightarrow> LapData option \<times> LapStorageService" where
  "save_pending_lap lap_id now_ms lap_time s =
     (if pending_lap_points s = [] \<or> length (pending_lap_points s) < 100 then
        (None, s\<lparr> pending_lap_points := [] \<rparr>)
      else if lap_time < 10 \<or> 1200 < lap_time then
        (None, s\<lparr> pending_lap_points := [], pending_lap_number := 0 \<rparr>)
      else
        let is_session_best = lt_inf lap_time (session_best_time s);
            lap = \<lparr> lapId = lap_id, lapNumber = pending_lap_number s,
                    lapTime = py_round lap_time 3, isSessionBest = is_session_best,
                    trackName = pending_lap_track s, carName = pending_lap_car s,
                    completedAt = now_ms, points = pending_lap_points s,
                    deltaToSessionBest = delta_to_best lap_time (session_best_time s) \<rparr>;
            s1 = (if is_session_best
                  then s\<lparr> laps := unmark_previous_best s, session_best_id := Some lap_id,
                          session_best_time := Fin lap_time \<rparr>
                  else s);
            s2 = s1\<lparr> laps := AList.update lap_id lap (laps s1) \<rparr>;
            s3 = s2\<lparr> pending_lap_points := [], pending_lap_number := 0,
                     pending_lap_track := [], pending_lap_car := [] \<rparr>
        in (Some lap, enforce_limit s3))"

definition delete_lap :: "string \<Rightarrow> LapStorageService \<Rightarrow> bool \<times> LapStorageService" where
  "delete_lap lap_id s =
     (if Some lap_id = session_best_id s then (False, s)
      else if lap_id \<in> fst ` set (laps s) then (True, s\<lparr> laps := AList.delete lap_id (laps s) \<rparr>)
      else (False, s))"

definition reset_session :: "LapStorageService \<Rightarrow> LapStorageService" where
  "reset_session s =
     s\<lparr> laps := [], session_best_id := None, session_best_time := PosInf,
        current_lap_points := [], recording_active := False,
        pending_lap_points := [], pending_lap_number := 0, pending_lap_track := [],
        pending_lap_car := [], pending_lap_created_at := 0 \<rparr>"

definition clear_pending_lap :: "LapStorageService \<Rightarrow> LapStorageService" where
  "clear_pending_lap s =
     s\<lparr> pending_lap_points := [], pending_lap_number := 0, pending_lap_track := [],
        pending_lap_car := [], pending_lap_created_at := 0 \<rparr>"

text \<open>
  Calls of the service as data, so that a session is a list of calls. \<open>SetPending\<close> is
  the assignment of the five pending attributes that \<open>capture_lap_telemetry\<close> makes
  from outside the class.
\<close>

datatype storage_op =
    StartLap int
  | AddPoint TelemetryPoint
  | CompleteLap string int real string string
  | SavePendingLap string int real
  | DeleteLap string
  | EnforceLimit
  | ClearPendingLap
  | ResetSession
  | SetPending "TelemetryPoint list" int string string real

datatype op_result = NoResult | LapResult "LapData option" | BoolResult bool

definition set_pending ::
  "TelemetryPoint list \<Rightarrow> int \<Rightarrow> string \<Rightarrow> string \<Rightarrow> real \<Rightarrow> LapStorageService
     \<Rightarrow> LapStorageService" where
  "set_pending pts n track_name car_name t s =
     s\<lparr> pending_lap_points := pts, pending_lap_number := n, pending_lap_track := track_name,
        pending_lap_car := car_name, pending_lap_created_at := t \<rparr>"

fun apply_op :: "storage_op \<Rightarrow> LapStorageService \<Rightarrow> op_result \<times> LapStorageService" where
  "apply_op (StartLap n) s = (NoResult, start_lap n s)"
| "apply_op (AddPoint p) s = (NoResult, add_point p s)"
| "apply_op (CompleteLap i ms t tr car) s =
     (case complete_lap i ms t tr car s of (r, s') \<Rightarrow> (LapResult r, s'))"
| "apply_op (SavePendingLap i ms t) s =
     (case save_pending_lap i ms t s of (r, s') \<Rightarrow> (LapResult r, s'))"
| "apply_op (DeleteLap i) s = (case delete_lap i s of (b, s') \<Rightarrow> (BoolResult b, s'))"
| "apply_op EnforceLimit s = (NoResult, enforce_limit s)"
| "apply_op ClearPendingLap s = (NoResult, clear_pending_lap s)"
| "apply_op ResetSession s = (NoResult, reset_session s)"
| "apply_op (SetPending pts n tr car t) s = (NoResult, set_pending pts n tr car t s)"

fun run_ops :: "storage_op list \<Rightarrow> LapStorageService \<Rightarrow> op_result list \<times> LapStorageService" where
  "run_ops [] s = ([], s)"
| "run_ops (c # cs) s =
     (case apply_op c s of (r, s') \<Rightarrow> (case run_ops cs s' of (rs, s'') \<Rightarrow> (r # rs, s'')))"

text \<open>
  The id a completion draws is new: not the empty string (it is 8 characters of a uuid4) and
  not the id of a stored lap.
\<close>

fun op_id_fresh :: "storage_op \<Rightarrow> LapStorageService \<Rightarrow> bool" where
  "op_id_fresh (CompleteLap i ms t tr car) s = (i \<noteq> [] \<and> i \<notin> fst ` set (laps s))"
| "op_id_fresh (SavePendingLap i ms t) s = (i \<noteq> [] \<and> i \<notin> fst ` set (laps s))"
| "op_id_fresh c s = True"

fun fresh_ids :: "storage_op list \<Rightarrow> LapStorageService \<Rightarrow> bool" where
  "fresh_ids [] s = True"
| "fresh_ids (c # cs) s = (op_id_fresh c s \<and> fresh_ids cs (snd (apply_op c s)))"

section \<open>LapStorageService of the LMU adapter\<close>

text \<open>
  \<open>lmu_service.py\<close> declares its own \<open>TelemetryPoint\<close>, \<open>LapData\<close> and
  \<open>LapStorageService\<close>, with the same fields in the same order as those of
  \<open>telemetry_service.py\<close>; the records above stand for both. The methods are translated
  again, from the LMU file.
\<close>

definition lmu_init_storage :: "int \<Rightarrow> LapStorageService" where
  "lmu_init_storage m =
     \<lparr> max_laps = m, laps = [], session_best_id = None, session_best_time = PosInf,
       current_lap_points = [], current_lap_number = 0, recording_active = False,
       last_capture_time = 0, last_distance_pct = 0,
       pending_lap_points = [], pending_lap_number = 0, pending_lap_track = [],
       pending_lap_car = [], pending_lap_created_at = 0 \<rparr>"

definition lmu_start_lap :: "int \<Rightarrow> LapStorageService \<Rightarrow> LapStorageService" where
  "lmu_start_lap lap_number s =
     s\<lparr> current_lap_points := [], current_lap_number := lap_number,
        recording_active := True, last_distance_pct := 0 \<rparr>"

definition lmu_add_point :: "TelemetryPoint \<Rightarrow> LapStorageService \<Rightarrow> LapStorageService" where
  "lmu_add_point point s =
     (if \<not> recording_active s then s
      else if last_distance_pct s \<le> distancePct point \<or> distancePct point < 5 / 100 then
        s\<lparr> current_lap_points := current_lap_points s @ [point],
           last_distance_pct := distancePct point \<rparr>
      else s)"

fun lmu_oldest_scan ::
  "string option \<Rightarrow> (string \<times> LapData) list \<Rightarrow> string option \<times> int with_inf
     \<Rightarrow> string option \<times> int with_inf" where
  "lmu_oldest_scan best [] acc = acc"
| "lmu_oldest_scan best ((lap_id, lap) # rest) (oldest_id, oldest_time) =
     (if Some lap_id \<noteq> best \<and> lt_inf (completedAt lap) oldest_time
      then lmu_oldest_scan best rest (Some lap_id, Fin (completedAt lap))
      else lmu_oldest_scan best rest (oldest_id, oldest_time))"

definition lmu_find_oldest :: "LapStorageService \<Rightarrow> string option" where
  "lmu_find_oldest s = fst (lmu_oldest_scan (session_best_id s) (laps s) (None, PosInf))"

lemma lmu_oldest_scan_eq: "lmu_oldest_scan best al acc = oldest_scan best al acc"
  by (induction best al acc rule: oldest_scan.induct) simp_all

lemma lmu_find_oldest_eq: "lmu_find_oldest s = find_oldest s"
  by (simp add: lmu_find_oldest_def find_oldest_def lmu_oldest_scan_eq)

function lmu_enforce_limit :: "LapStorageService \<Rightarrow> LapStorageService" where
  "lmu_enforce_limit s =
     (if max_laps s < int (length (laps s)) then
        (case lmu_find_oldest s of
           Some oldest_id \<Rightarrow>
             if oldest_id \<noteq> []
             then lmu_enforce_limit (s\<lparr> laps := AList.delete oldest_id (laps s) \<rparr>)
             else s
         | None \<Rightarrow> s)
      else s)"
  by pat_completeness auto
termination
  by (relation "measure (\<lambda>s. length (laps s))")
     (auto simp: lmu_find_oldest_eq dest!: find_oldest_key intro: length_delete_less)

declare lmu_enforce_limit.simps [simp del]

definition lmu_unmark_previous_best :: "LapStorageService \<Rightarrow> (string \<times> LapData) list" where
  "lmu_unmark_previous_best s =
     (case session_best_id s of
        Some b \<Rightarrow>
          if b \<noteq> [] \<and> b \<in> fst ` set (laps s)
          then AList.map_entry b (\<lambda>l. l\<lparr> isSessionBest := False \<rparr>) (laps s)
          else laps s
      | None \<Rightarrow> laps s)"

definition lmu_complete_lap ::
  "string \<Rightarrow> int \<Rightarrow> real \<Rightarrow> string \<Rightarrow> string \<Rightarrow> LapStorageService
     \<Rightarrow> LapData option \<times> LapStorageService" where
  "lmu_complete_lap lap_id now_ms lap_time track_name car_name s =
     (if \<not> recording_active s \<or> length (current_lap_points s) < 100 then
        (None, s\<lparr> recording_active := False \<rparr>)
      else if lap_time < 10 \<or> 1200 < lap_time then
        (None, s\<lparr> recording_active := False, current_lap_points := [] \<rparr>)
      else
        let is_session_best = lt_inf lap_time (session_best_time s);
            lap = \<lparr> lapId = lap_id, lapNumber = current_lap_number s,
                    lapTime = py_round lap_time 3, isSessionBest = is_session_best,
                    trackName = track_name, carName = car_name, completedAt = now_ms,
                    points = current_lap_points s,
                    deltaToSessionBest = delta_to_best lap_time (session_best_time s) \<rparr>;
            s1 = (if is_session_best
                  then s\<lparr> laps := lmu_unmark_previous_best s, session_best_id := Some lap_id,
                          session_best_time := Fin lap_time \<rparr>
                  else s);
            s2 = s1\<lparr> laps := AList.update lap_id lap (laps s1) \<rparr>;
            s3 = lmu_enforce_limit s2
        in (Some lap, s3\<lparr> recording_active := False, current_lap_points := [] \<rparr>))"

definition lmu_save_pending_lap ::
  "string \<Rightarrow> int \<Rightarrow> real \<Rightarrow> LapStorageService \<Rightarrow> LapData option \<times> LapStorageService" where
  "lmu_save_pending_lap lap_id now_ms lap_time s =
     (if pending_lap_points s = [] \<or> length (pending_lap_points s) < 100 then
        (None, s\<lparr> pending_lap_points := [] \<rparr>)
      else if lap_time < 10 \<or> 1200 < lap_time then
        (None, s\<lparr> pending_lap_points := [], pending_lap_number := 0 \<rparr>)
      else
        let is_session_best = lt_inf lap_time (session_best_time s);
            lap = \<lparr> lapId = lap_id, lapNumber = pending_lap_number s,
                    lapTime = py_round lap_time 3, isSessionBest = is_session_best,
                    trackName = pending_lap_track s, carName = pending_lap_car s,
                    completedAt = now_ms, points = pending_lap_points s,
                    deltaToSessionBest = delta_to_best lap_time (session_best_time s) \<rparr>;
            s1 = (if is_session_best
                  then s\<lparr> laps := lmu_unmark_previous_best s, session_best_id := Some lap_id,
                          session_best_time := Fin lap_time \<rparr>
                  else s);
            s2 = s1\<lparr> laps := AList.update lap_id lap (laps s1) \<rparr>;
            s3 = s2\<lparr> pending_lap_points := [], pending_lap_number := 0,
                     pending_lap_track := [], pending_lap_car := [] \<rparr>
        in (Some lap, lmu_enforce_limit s3))"

definition lmu_delete_lap :: "string \<Rightarrow> LapStorageService \<Rightarrow> bool \<times> LapStorageService" where
  "lmu_delete_lap lap_id s =
     (if Some lap_id = session_best_id s then (False, s)
      else if lap_id \<in> fst ` set (laps s) then (True, s\<lparr> laps := AList.delete lap_id (laps s) \<rparr>)
      else (False, s))"

definition lmu_reset_session :: "LapStorageService \<Rightarrow> LapStorageService" where
  "lmu_reset_session s =
     s\<lparr> laps := [], session_best_id := None, session_best_time := PosInf,
        current_lap_points := [], recording_active := False,
        pending_lap_points := [], pending_lap_number := 0, pending_lap_track := [],
        pending_lap_car := [], pending_lap_created_at := 0 \<rparr>"

definition lmu_clear_pending_lap :: "LapStorageService \<Rightarrow> LapStorageService" where
  "lmu_clear_pending_lap s =
     s\<lparr> pending_lap_points := [], pending_lap_number := 0, pending_lap_track := [],
        pending_lap_car := [], pending_lap_created_at := 0 \<rparr>"

fun lmu_apply_op :: "storage_op \<Rightarrow> LapStorageService \<Rightarrow> op_result \<times> LapStorageService" where
  "lmu_apply_op (StartLap n) s = (NoResult, lmu_start_lap n s)"
| "lmu_apply_op (AddPoint p) s = (NoResult, lmu_add_point p s)"
| "lmu_apply_op (CompleteLap i ms t tr car) s =
     (case lmu_complete_lap i ms t tr car s of (r, s') \<Rightarrow> (LapResult r, s'))"
| "lmu_apply_op (SavePendingLap i ms t) s =
     (case lmu_save_pending_lap i ms t s of (r, s') \<Rightarrow> (LapResult r, s'))"
| "lmu_apply_op (DeleteLap i) s = (case lmu_delete_lap i s of (b, s') \<Rightarrow> (BoolResult b, s'))"
| "lmu_apply_op EnforceLimit s = (NoResult, lmu_enforce_limit s)"
| "lmu_apply_op ClearPendingLap s = (NoResult, lmu_clear_pending_lap s)"
| "lmu_apply_op ResetSession s = (NoResult, lmu_reset_session s)"
| "lmu_apply_op (SetPending pts n tr car t) s = (NoResult, set_pending pts n tr car t s)"

fun lmu_run_ops ::
  "storage_op list \<Rightarrow> LapStorageService \<Rightarrow> op_result list \<times> LapStorageService" where
  "lmu_run_ops [] s = ([], s)"
| "lmu_run_ops (c # cs) s =
     (case lmu_apply_op c s of (r, s') \<Rightarrow>
        (case lmu_run_ops cs s' of (rs, s'') \<Rightarrow> (r # rs, s'')))"

section \<open>OpponentSectorTracker\<close>

text \<open>
  The state kept for one car. The dict \<open>sector_times\<close> has the keys \<open>'s1'\<close>, \<open>'s2'\<close>,
  \<open>'s3'\<close>; here the key \<open>'sN'\<close> is the number \<open>N\<close>, and a value \<open>None\<close> of the source
  (not recorded yet) is an unset key.
\<close>

record car_state =
  last_dist :: real
  last_sector :: int
  sector_times :: "int \<rightharpoonup> real"
  sector_start_time :: real
  last_session_time :: real

record OpponentSectorTracker =
  car_states :: "nat \<rightharpoonup> car_state"
  max_cars :: nat

definition init_tracker :: OpponentSectorTracker where
  "init_tracker = \<lparr> car_states = Map.empty, max_cars = 64 \<rparr>"

definition tracker_reset :: "OpponentSectorTracker \<Rightarrow> OpponentSectorTracker" where
  "tracker_reset tr = tr\<lparr> car_states := Map.empty \<rparr>"

definition get_sector_from_dist :: "real \<Rightarrow> int" where
  "get_sector_from_dist dist_pct =
     (if dist_pct < 33 / 100 then 1 else if dist_pct < 66 / 100 then 2 else 3)"

text \<open>Closing a sector: the elapsed time is kept only inside the sanity window.\<close>

definition close_sector :: "int \<Rightarrow> real \<Rightarrow> car_state \<Rightarrow> car_state" where
  "close_sector k session_time state =
     (let sector_time = session_time - sector_start_time state;
          state1 = (if 0 < sector_time \<and> sector_time < 300
                    then state\<lparr> sector_times := (sector_times state)(k \<mapsto> py_round sector_time 3) \<rparr>
                    else state)
      in state1\<lparr> sector_start_time := session_time \<rparr>)"

text \<open>The body of the loop of \<open>update\<close> for a car that already has a state.\<close>

definition advance_car :: "real \<Rightarrow> real \<Rightarrow> car_state \<Rightarrow> car_state" where
  "advance_car dist_pct session_time state =
     (let current_sector = get_sector_from_dist dist_pct;
          state1 =
            (if current_sector \<noteq> last_sector state then
               (if last_sector state = 3 \<and> current_sector = 1 then
                  close_sector 3 session_time state
                else if current_sector = last_sector state + 1 then
                  close_sector (last_sector state) session_time state
                else state)\<lparr> last_sector := current_sector \<rparr>
             else state)
      in state1\<lparr> last_dist := dist_pct, last_session_time := session_time \<rparr>)"

text \<open>
  One iteration of the loop, for the car index \<open>car_idx\<close> (which the loop keeps below the
  length of \<open>lap_dist_pcts\<close>).
\<close>

definition update_car ::
  "real list \<Rightarrow> int list \<Rightarrow> real \<Rightarrow> nat \<Rightarrow> OpponentSectorTracker \<Rightarrow> OpponentSectorTracker" where
  "update_car lap_dist_pcts track_surfaces session_time car_idx tr =
     (let dist_pct = lap_dist_pcts ! car_idx in
      if dist_pct < 0 \<or> length track_surfaces \<le> car_idx then tr
      else if track_surfaces ! car_idx < 0 then tr
      else
        (case car_states tr car_idx of
           None \<Rightarrow>
             tr\<lparr> car_states := (car_states tr)(car_idx \<mapsto>
                    \<lparr> last_dist = dist_pct, last_sector = get_sector_from_dist dist_pct,
                      sector_times = Map.empty, sector_start_time = session_time,
                      last_session_time = session_time \<rparr>) \<rparr>
         | Some state \<Rightarrow>
             tr\<lparr> car_states := (car_states tr)(car_idx \<mapsto>
                    advance_car dist_pct session_time state) \<rparr>))"

text \<open>
  \<open>update\<close>: the arguments are the two arrays read from the simulator
  (\<open>CarIdxLapDistPct\<close>, \<open>CarIdxTrackSurface\<close>, the empty list when absent) and the session
  time.
\<close>

definition tracker_update ::
  "real list \<Rightarrow> int list \<Rightarrow> real \<Rightarrow> OpponentSectorTracker \<Rightarrow> OpponentSectorTracker" where
  "tracker_update lap_dist_pcts track_surfaces session_time tr =
     fold (update_car lap_dist_pcts track_surfaces session_time)
       [0 ..< min (length lap_dist_pcts) (max_cars tr)] tr"

definition get_sectors :: "nat \<Rightarrow> OpponentSectorTracker \<Rightarrow> (int \<rightharpoonup> real)" where
  "get_sectors car_idx tr =
     (case car_states tr car_idx of None \<Rightarrow> Map.empty | Some state \<Rightarrow> sector_times state)"

text \<open>A session of the tracker: one frame is the two arrays and the session time.\<close>

fun tracker_run ::
  "(real list \<times> int list \<times> real) list \<Rightarrow> OpponentSectorTracker \<Rightarrow> OpponentSectorTracker" where
  "tracker_run [] tr = tr"
| "tracker_run ((ds, ss, t) # frames) tr = tracker_run frames (tracker_update ds ss t tr)"

section \<open>IRacingTelemetryService: lap capture and spotter\<close>

text \<open>The attributes of the service that lap capture and the spotter use.\<close>

record IRacingTelemetryService =
  connected :: bool
  spotter_state :: string
  spotter_frames_in_state :: int
  spotter_last_call :: real
  spotter_cooldown :: real
  spotter_still_interval :: real
  last_spotter_emit :: "real option"
  lap_storage :: LapStorageService
  last_lap_capture_time :: real
  prev_lap_for_capture :: int
  sector_tracker :: OpponentSectorTracker

definition init_service :: IRacingTelemetryService where
  "init_service =
     \<lparr> connected = False, spotter_state = ''clear'', spotter_frames_in_state = 0,
       spotter_last_call = 0, spotter_cooldown = 1, spotter_still_interval = 2,
       last_spotter_emit = None, lap_storage = init_storage MAX_STORED_LAPS,
       last_lap_capture_time = 0, prev_lap_for_capture = 0, sector_tracker = init_tracker \<rparr>"

text \<open>
  What one call of \<open>capture_lap_telemetry\<close> reads: the clock, the simulator variables,
  the session info strings, and the id and the millisecond clock that a completion draws.
\<close>

record capture_frame =
  now :: real
  ir_is_connected :: bool
  ir_PlayerCarIdx :: int
  ir_Lap :: int
  ir_LapDistPct :: real
  ir_LapLastLapTime :: real
  ir_TrackDisplayName :: "string option"
  ir_TrackConfigName :: "string option"
  ir_CarScreenName :: "string option"
  ir_CarIdxTrackSurface :: "int list"
  ir_Speed :: real
  ir_Throttle :: real
  ir_Brake :: real
  ir_Gear :: int
  ir_RPM :: real
  ir_SteeringWheelAngle :: real
  new_uuid :: string
  clock_ms :: int

text \<open>\<open>x or d\<close> on an optional string: \<open>None\<close> and the empty string give \<open>d\<close>.\<close>

definition str_or :: "string option \<Rightarrow> string \<Rightarrow> string" where
  "str_or x d = (case x of None \<Rightarrow> d | Some v \<Rightarrow> if v = [] then d else v)"

definition frame_track_name :: "capture_frame \<Rightarrow> string" where
  "frame_track_name f =
     (let track_name = str_or (ir_TrackDisplayName f) ''Unknown'';
          track_config = str_or (ir_TrackConfigName f) []
      in if track_config \<noteq> [] then track_name @ '' - '' @ track_config else track_name)"

definition frame_car_name :: "capture_frame \<Rightarrow> string" where
  "frame_car_name f = str_or (ir_CarScreenName f) ''Unknown''"

text \<open>
  The pending block at the head of a tick: a pending lap older than 10 seconds is cleared,
  otherwise a valid lap time saves it. A saved lap ends the tick (first component).
\<close>

definition resolve_pending ::
  "capture_frame \<Rightarrow> LapStorageService \<Rightarrow> LapData option \<times> LapStorageService" where
  "resolve_pending f st =
     (if 0 < length (pending_lap_points st) then
        (let pending_age = now f - pending_lap_created_at st in
         if 10 < pending_age then (None, clear_pending_lap st)
         else if 0 < ir_LapLastLapTime f then
           save_pending_lap (new_uuid f) (clock_ms f) (ir_LapLastLapTime f) st
         else (None, st))
      else (None, st))"

text \<open>The branch taken at a lap boundary (\<open>current_lap > prev_lap_for_capture > 0\<close>).\<close>

definition lap_change ::
  "capture_frame \<Rightarrow> IRacingTelemetryService \<Rightarrow> LapData option \<times> IRacingTelemetryService" where
  "lap_change f svc =
     (let prev_lap = prev_lap_for_capture svc;
          svc1 = svc\<lparr> prev_lap_for_capture := ir_Lap f \<rparr>;
          track_name = frame_track_name f;
          car_name = frame_car_name f;
          st = lap_storage svc1;
          (completed_lap, st1) =
            (if 0 < ir_LapLastLapTime f then
               complete_lap (new_uuid f) (clock_ms f) (ir_LapLastLapTime f) track_name car_name st
             else if MIN_LAP_POINTS < length (current_lap_points st) then
               (None, st\<lparr> pending_lap_points := current_lap_points st,
                           pending_lap_number := prev_lap,
                           pending_lap_track := track_name,
                           pending_lap_car := car_name,
                           pending_lap_created_at := now f \<rparr>)
             else (None, st))
      in (completed_lap, svc1\<lparr> lap_storage := start_lap (ir_Lap f) st1 \<rparr>))"

text \<open>
  \<open>track_surfaces[player_idx] if player_idx < len(track_surfaces) else -1\<close>: a negative
  index counts from the end, and one below \<open>-len\<close> raises \<open>IndexError\<close> (\<open>None\<close> here),
  which the \<open>except\<close> of the method turns into the result \<open>None\<close>.
\<close>

definition player_surface :: "capture_frame \<Rightarrow> int option" where
  "player_surface f =
     (let xs = ir_CarIdxTrackSurface f; i = ir_PlayerCarIdx f; n = int (length xs)
      in if i < n then
           (if 0 \<le> i then Some (xs ! nat i)
            else if - n \<le> i then Some (xs ! nat (n + i))
            else None)
         else Some (- 1))"

definition frame_point :: "capture_frame \<Rightarrow> TelemetryPoint" where
  "frame_point f =
     \<lparr> distancePct = py_round (ir_LapDistPct f) 4,
       speed = py_round (ir_Speed f * 36 / 10) 1,
       throttle = py_round (ir_Throttle f) 3,
       brake = py_round (ir_Brake f) 3,
       gear = ir_Gear f,
       rpm = py_round (ir_RPM f) 0,
       steeringAngle = py_round (ir_SteeringWheelAngle f) 4 \<rparr>"

text \<open>The rest of a tick without a lap boundary: first lap detection, then one point.\<close>

definition record_tick ::
  "capture_frame \<Rightarrow> IRacingTelemetryService \<Rightarrow> IRacingTelemetryService" where
  "record_tick f svc =
     (let svc1 = (if 0 < ir_Lap f \<and> prev_lap_for_capture svc = 0
                  then svc\<lparr> lap_storage := start_lap (ir_Lap f) (lap_storage svc),
                            prev_lap_for_capture := ir_Lap f \<rparr>
                  else svc)
      in case player_surface f of
           None \<Rightarrow> svc1
         | Some surface \<Rightarrow>
             if surface \<notin> {1, 3, 4} then svc1
             else if recording_active (lap_storage svc1)
             then svc1\<lparr> lap_storage := add_point (frame_point f) (lap_storage svc1) \<rparr>
             else svc1)"

definition capture_lap_telemetry ::
  "capture_frame \<Rightarrow> IRacingTelemetryService \<Rightarrow> LapData option \<times> IRacingTelemetryService" where
  "capture_lap_telemetry f svc =
     (if \<not> connected svc \<or> \<not> ir_is_connected f then (None, svc)
      else if now f - last_lap_capture_time svc < LAP_CAPTURE_INTERVAL then (None, svc)
      else
        (let svc1 = svc\<lparr> last_lap_capture_time := now f \<rparr> in
         case resolve_pending f (lap_storage svc1) of
           (Some lap, st) \<Rightarrow> (Some lap, svc1\<lparr> lap_storage := st \<rparr>)
         | (None, st) \<Rightarrow>
             (let svc2 = svc1\<lparr> lap_storage := st \<rparr> in
              if prev_lap_for_capture svc2 < ir_Lap f \<and> 0 < prev_lap_for_capture svc2
              then lap_change f svc2
              else (None, record_tick f svc2))))"

subsection \<open>Spotter\<close>

record proximity =
  car_left :: bool
  car_right :: bool
  car_left_dist :: real
  car_right_dist :: real

definition detect_proximity :: "int \<Rightarrow> proximity" where
  "detect_proximity car_left_right =
     \<lparr> car_left = (car_left_right \<in> {2, 4, 5}), car_right = (car_left_right \<in> {3, 4, 6}),
       car_left_dist = 1 / 2, car_right_dist = 1 / 2 \<rparr>"

definition variant_str :: "int \<Rightarrow> string" where
  "variant_str n = (if n = 1 then ''1'' else if n = 2 then ''2'' else ''3'')"

text \<open>
  \<open>_update_spotter_state\<close>; \<open>t\<close> is the clock the method reads. The result is the event
  key (or \<open>None\<close>) and the new state.
\<close>

definition update_spotter_state ::
  "real \<Rightarrow> proximity \<Rightarrow> IRacingTelemetryService \<Rightarrow> string option \<times> IRacingTelemetryService" where
  "update_spotter_state t prox svc =
     (let new_state =
            (if car_left prox \<and> car_right prox then ''three_wide''
             else if car_left prox then ''car_left''
             else if car_right prox then ''car_right''
             else ''clear'')
      in
      if new_state \<noteq> spotter_state svc then
        (let (event, svc1) =
               (if new_state = ''clear'' then
                  (Some (if spotter_state svc = ''three_wide'' then ''clear_all_around''
                         else if spotter_state svc = ''car_left'' then ''clear_left''
                         else if spotter_state svc = ''car_right'' then ''clear_right''
                         else ''clear''),
                   svc\<lparr> spotter_last_call := t \<rparr>)
                else if spotter_cooldown svc \<le> t - spotter_last_call svc then
                  (Some new_state, svc\<lparr> spotter_last_call := t \<rparr>)
                else (None, svc))
         in (event, svc1\<lparr> spotter_state := new_state, spotter_frames_in_state := 0 \<rparr>))
      else if spotter_state svc \<in> {''car_left'', ''car_right'', ''three_wide''}
              \<and> spotter_still_interval svc \<le> t - spotter_last_call svc then
        (let variant_num = spotter_frames_in_state svc mod 3 + 1;
             event =
               (if spotter_state svc = ''car_left'' then ''still_left_'' @ variant_str variant_num
                else if spotter_state svc = ''car_right''
                then ''still_right_'' @ variant_str variant_num
                else ''still_three_wide_'' @ variant_str variant_num)
         in (Some event,
             svc\<lparr> spotter_last_call := t,
                  spotter_frames_in_state := spotter_frames_in_state svc + 1 \<rparr>))
      else (None, svc))"

text \<open>
  The spotter rule that closes \<open>detect_events\<close>. The frame holds what the rule reads:
  the result of \<open>is_session_active()\<close>, \<open>OnPitRoad\<close>, \<open>InGarage\<close>, whether the session
  type names a qualifying, the number of real drivers, \<open>CarLeftRight\<close>, and the two clock
  readings (inside \<open>_update_spotter_state\<close>, then before the emission). The result is the
  list of spotter events appended to \<open>events\<close>, each the call and the proximity.
\<close>

record spotter_frame =
  session_active :: bool
  ir_OnPitRoad :: bool
  ir_InGarage :: bool
  is_qualifying :: bool
  num_cars :: nat
  ir_CarLeftRight :: int
  spotter_clock :: real
  emit_clock :: real

definition detect_spotter ::
  "spotter_frame \<Rightarrow> IRacingTelemetryService
     \<Rightarrow> (string \<times> proximity) list \<times> IRacingTelemetryService" where
  "detect_spotter f svc =
     (if session_active f \<and> \<not> ir_OnPitRoad f \<and> \<not> ir_InGarage f \<and> \<not> is_qualifying f
         \<and> 1 < num_cars f then
        (let prox = detect_proximity (ir_CarLeftRight f);
             (spotter_event, svc1) = update_spotter_state (spotter_clock f) prox svc
         in case spotter_event of
              None \<Rightarrow> ([], svc1)
            | Some call \<Rightarrow>
                if call \<noteq> []
                   \<and> 1 / 2 \<le> emit_clock f - (case last_spotter_emit svc1 of None \<Rightarrow> 0 | Some e \<Rightarrow> e)
                then ([(call, prox)], svc1\<lparr> last_spotter_emit := Some (emit_clock f) \<rparr>)
                else ([], svc1))
      else ([], svc))"

section \<open>Predicates of the specification\<close>





text \<open>
  The invariant that the operations keep: ids are distinct and not empty; before the first
  stored lap nothing is stored and the best time is infinite; afterwards the best id names
  a stored lap whose time is the rounded best time, no stored lap is faster, and the flag
  sits on that lap alone.
\<close>

definition best_inv :: "LapStorageService \<Rightarrow> bool" where
  "best_inv s =
     (distinct (map fst (laps s)) \<and> [] \<notin> fst ` set (laps s) \<and>
      (case session_best_id s of
         None \<Rightarrow> laps s = [] \<and> session_best_time s = PosInf
       | Some b \<Rightarrow>
           b \<noteq> [] \<and>
           (case session_best_time s of
              PosInf \<Rightarrow> False
            | Fin t \<Rightarrow>
                (case map_of (laps s) b of
                   None \<Rightarrow> False
                 | Some bl \<Rightarrow>
                     lapTime bl = py_round t 3 \<and>
                     (\<forall>(k, l) \<in> set (laps s).
                        lapTime bl \<le> lapTime l \<and> (isSessionBest l = (k = b)))))))"

text \<open>
  One eviction as the specification words it: \<open>s'\<close> is \<open>s\<close> without one stored lap, which
  is not the session best and is at least as old as every other lap that is not.
\<close>

definition removes_oldest_non_best :: "LapStorageService \<Rightarrow> LapStorageService \<Rightarrow> bool" where
  "removes_oldest_non_best s s' =
     (\<exists>(i, l) \<in> set (laps s).
        Some i \<noteq> session_best_id s \<and>
        (\<forall>(k, l') \<in> set (laps s). Some k \<noteq> session_best_id s \<longrightarrow> completedAt l \<le> completedAt l') \<and>
        map_of (laps s') i = None \<and>
        length (laps s') + 1 = length (laps s) \<and>
        s' = s\<lparr> laps := AList.delete i (laps s) \<rparr>)"

text \<open>
  The state in which \<open>complete_lap\<close> and \<open>save_pending_lap\<close> leave the store before the
  eviction: the session best is moved to the new lap when it is faster, then the lap is
  stored.
\<close>

definition store_lap :: "string \<Rightarrow> LapData \<Rightarrow> real \<Rightarrow> LapStorageService \<Rightarrow> LapStorageService" where
  "store_lap lap_id lap lap_time s =
     (let s1 = (if lt_inf lap_time (session_best_time s)
                then s\<lparr> laps := unmark_previous_best s, session_best_id := Some lap_id,
                        session_best_time := Fin lap_time \<rparr>
                else s)
      in s1\<lparr> laps := AList.update lap_id lap (laps s1) \<rparr>)"

section \<open>Concrete inputs\<close>

text \<open>Sample values on which the properties below are instantiated.\<close>

definition sample_point :: "real \<Rightarrow> TelemetryPoint" where
  "sample_point d =
     \<lparr> distancePct = d, speed = 180, throttle = 1, brake = 0, gear = 4, rpm = 7000,
       steeringAngle = 0 \<rparr>"

text \<open>A pending lap of 100 points, as \<open>capture_lap_telemetry\<close> would leave it.\<close>

definition pending_100 :: storage_op where
  "pending_100 = SetPending (replicate 100 (sample_point 0)) 7 ''Spa'' ''GT3'' 0"

text \<open>
  A short session: two pending laps are saved, the second one faster, and the first is then
  deleted.
\<close>

definition two_laps :: "storage_op list" where
  "two_laps =
     [pending_100, SavePendingLap ''a1b2c3d4'' 1000 95,
      pending_100, SavePendingLap ''e5f6a7b8'' 2000 94,
      DeleteLap ''a1b2c3d4'']"

text \<open>
  The scenario of the specification for the limit: with room for two laps, lap A of 100
  seconds and lap B of 95 seconds are stored and a third lap is pending.
\<close>

definition before_third :: "storage_op list" where
  "before_third =
     [pending_100, SavePendingLap ''aaaaaaaa'' 1000 100,
      pending_100, SavePendingLap ''bbbbbbbb'' 2000 95,
      pending_100]"

text \<open>
  Feeding a list of points to the recorder, one \<open>add_point\<close> call each, and what it
  means for their \<open>distancePct\<close> to rise from a starting value.
\<close>

definition add_points :: "TelemetryPoint list \<Rightarrow> LapStorageService \<Rightarrow> LapStorageService" where
  "add_points ps s = foldl (\<lambda>s' p. add_point p s') s ps"

fun rising :: "real \<Rightarrow> TelemetryPoint list \<Rightarrow> bool" where
  "rising d [] = True"
| "rising d (p # ps) = (d \<le> distancePct p \<and> rising (distancePct p) ps)"

text \<open>The 150 points of the scenario, their \<open>distancePct\<close> rising from 0.00 to 0.99.\<close>

definition rising_points :: "TelemetryPoint list" where
  "rising_points = map (\<lambda>i. sample_point (real i * 99 / 14900)) [0 ..< 150]"

text \<open>
  The scenario of two laps on a new store: 150 points are recorded and the lap is completed
  in 95.432 seconds, then 150 points again and a lap of 94.010 seconds.
\<close>

definition first_lap :: "LapData option \<times> LapStorageService" where
  "first_lap =
     complete_lap ''a1b2c3d4'' 1000 (95432 / 1000) ''Spa'' ''GT3''
       (add_points rising_points (start_lap 1 (init_storage MAX_STORED_LAPS)))"

definition second_lap :: "LapData option \<times> LapStorageService" where
  "second_lap =
     complete_lap ''e5f6a7b8'' 2000 (94010 / 1000) ''Spa'' ''GT3''
       (add_points rising_points (start_lap 2 (snd first_lap)))"

section \<open>Auxiliary facts\<close>

subsection \<open>Rounding\<close>

lemma round_half_even_bounds:
  "\<lfloor>y\<rfloor> \<le> round_half_even y \<and> round_half_even y \<le> \<lfloor>y\<rfloor> + 1"
  by (simp add: round_half_even_def Let_def)

lemma round_half_even_mono:
  assumes "x \<le> y"
  shows "round_half_even x \<le> round_half_even y"
proof (cases "\<lfloor>x\<rfloor> = \<lfloor>y\<rfloor>")
  case True
  with assms have "x - of_int \<lfloor>x\<rfloor> \<le> y - of_int \<lfloor>y\<rfloor>" by simp
  with True show ?thesis by (auto simp: round_half_even_def Let_def)
next
  case False
  with assms have "\<lfloor>x\<rfloor> + 1 \<le> \<lfloor>y\<rfloor>" using floor_mono [of x y] by linarith
  with round_half_even_bounds [of x] round_half_even_bounds [of y] show ?thesis by linarith
qed

lemma round_half_even_of_int: "round_half_even (of_int k) = k"
  by (simp add: round_half_even_def)

lemma py_round_mono: "x \<le> y \<Longrightarrow> py_round x n \<le> py_round y n"
  by (simp add: py_round_def round_half_even_mono divide_right_mono)

lemma py_round_exact: "py_round (of_int k / 10 ^ n) n = of_int k / 10 ^ n"
  by (simp add: py_round_def round_half_even_of_int)

lemma py_round_ge: "of_int k / 10 ^ n \<le> x \<Longrightarrow> of_int k / 10 ^ n \<le> py_round x n"
  using py_round_mono [of "of_int k / 10 ^ n" x n] by (simp add: py_round_exact)

lemma py_round_le: "x \<le> of_int k / 10 ^ n \<Longrightarrow> py_round x n \<le> of_int k / 10 ^ n"
  using py_round_mono [of x "of_int k / 10 ^ n" n] by (simp add: py_round_exact)


lemma py_round3_sector_range:
  assumes "0 < x" "x < 300"
  shows "0 \<le> py_round x 3 \<and> py_round x 3 \<le> 300"
  using py_round_ge [of 0 3 x] py_round_le [of x 300000 3] assms by simp

subsection \<open>Association lists\<close>

lemma update_fresh: "k \<notin> fst ` set al \<Longrightarrow> AList.update k v al = al @ [(k, v)]"
  by (induction al) auto


lemma set_delete_subset: "set (AList.delete k al) \<subseteq> set al"
  by (auto simp: AList.delete_eq)

lemma map_entry_distinct:
  "distinct (map fst al) \<Longrightarrow>
     AList.map_entry b f al = map (\<lambda>(k, v). if k = b then (k, f v) else (k, v)) al"
proof (induction al)
  case Nil
  then show ?case by simp
next
  case (Cons p al)
  obtain k v where p: "p = (k, v)" by (cases p)
  show ?case
  proof (cases "k = b")
    case True
    with Cons.prems p have "b \<notin> fst ` set al" by auto
    then have "map (\<lambda>(k, v). if k = b then (k, f v) else (k, v)) al = al"
      by (intro map_idI) (auto simp: image_iff)
    with True p show ?thesis by simp
  next
    case False
    with Cons p show ?thesis by simp
  qed
qed


subsection \<open>Eviction changes the stored laps only, and only removes\<close>




subsection \<open>Validity of the stored laps\<close>




lemma complete_lap_stored:
  "recording_active s \<Longrightarrow> 100 \<le> length (current_lap_points s) \<Longrightarrow> 10 \<le> t \<Longrightarrow> t \<le> 1200 \<Longrightarrow>
   complete_lap i ms t tr car s =
     (let lap = \<lparr> lapId = i, lapNumber = current_lap_number s, lapTime = py_round t 3,
                  isSessionBest = lt_inf t (session_best_time s), trackName = tr, carName = car,
                  completedAt = ms, points = current_lap_points s,
                  deltaToSessionBest = delta_to_best t (session_best_time s) \<rparr>
      in (Some lap, (enforce_limit (store_lap i lap t s))
                      \<lparr> recording_active := False, current_lap_points := [] \<rparr>))"
  by (simp add: complete_lap_def store_lap_def Let_def)

lemma save_pending_lap_stored:
  "100 \<le> length (pending_lap_points s) \<Longrightarrow> 10 \<le> t \<Longrightarrow> t \<le> 1200 \<Longrightarrow>
   save_pending_lap i ms t s =
     (let lap = \<lparr> lapId = i, lapNumber = pending_lap_number s, lapTime = py_round t 3,
                  isSessionBest = lt_inf t (session_best_time s),
                  trackName = pending_lap_track s, carName = pending_lap_car s,
                  completedAt = ms, points = pending_lap_points s,
                  deltaToSessionBest = delta_to_best t (session_best_time s) \<rparr>
      in (Some lap, enforce_limit ((store_lap i lap t s)
                      \<lparr> pending_lap_points := [], pending_lap_number := 0,
                        pending_lap_track := [], pending_lap_car := [] \<rparr>)))"
  by (auto simp add: save_pending_lap_def store_lap_def Let_def)

lemma complete_lap_rejected:
  "\<not> recording_active s \<or> length (current_lap_points s) < 100 \<or> t < 10 \<or> 1200 < t \<Longrightarrow>
   fst (complete_lap i ms t tr car s) = None \<and> laps (snd (complete_lap i ms t tr car s)) = laps s"
  by (auto simp: complete_lap_def)

lemma save_pending_lap_rejected:
  "length (pending_lap_points s) < 100 \<or> t < 10 \<or> 1200 < t \<Longrightarrow>
   fst (save_pending_lap i ms t s) = None \<and> laps (snd (save_pending_lap i ms t s)) = laps s"
  by (auto simp: save_pending_lap_def)



lemma snd_apply_op:
  "snd (apply_op (StartLap n) s) = start_lap n s"
  "snd (apply_op (AddPoint p) s) = add_point p s"
  "snd (apply_op (CompleteLap i ms t tr car) s) = snd (complete_lap i ms t tr car s)"
  "snd (apply_op (SavePendingLap i ms t) s) = snd (save_pending_lap i ms t s)"
  "snd (apply_op (DeleteLap i) s) = snd (delete_lap i s)"
  "snd (apply_op EnforceLimit s) = enforce_limit s"
  "snd (apply_op ClearPendingLap s) = clear_pending_lap s"
  "snd (apply_op ResetSession s) = reset_session s"
  "snd (apply_op (SetPending pts n tr car t') s) = set_pending pts n tr car t' s"
  by (simp_all split: prod.splits)

lemma snd_run_ops_Cons: "snd (run_ops (c # cs) s) = snd (run_ops cs (snd (apply_op c s)))"
  by (simp split: prod.splits)



subsection \<open>The scan for the oldest lap\<close>

lemma lt_inf_trans: "c < d \<Longrightarrow> lt_inf d ot \<Longrightarrow> lt_inf c ot"
  by (cases ot) auto

lemma oldest_scan_spec:
  "oldest_scan best al (oi, ot) = (ri, rt) \<Longrightarrow>
     (\<forall>(k, l) \<in> set al. Some k \<noteq> best \<longrightarrow> \<not> lt_inf (completedAt l) rt) \<and>
     (\<forall>c. lt_inf c rt \<longrightarrow> lt_inf c ot) \<and>
     ((ri, rt) = (oi, ot) \<or>
      (\<exists>(k, l) \<in> set al. Some k \<noteq> best \<and> ri = Some k \<and> rt = Fin (completedAt l)))"
proof (induction al arbitrary: oi ot)
  case Nil
  then show ?case by simp
next
  case (Cons p al)
  obtain k l where p: "p = (k, l)" by (cases p)
  show ?case
  proof (cases "Some k \<noteq> best \<and> lt_inf (completedAt l) ot")
    case True
    with Cons.prems p
    have "oldest_scan best al (Some k, Fin (completedAt l)) = (ri, rt)" by simp
    from Cons.IH [OF this]
    have a: "\<forall>(k, l) \<in> set al. Some k \<noteq> best \<longrightarrow> \<not> lt_inf (completedAt l) rt"
      and b: "\<forall>c. lt_inf c rt \<longrightarrow> c < completedAt l"
      and c: "(ri, rt) = (Some k, Fin (completedAt l)) \<or>
        (\<exists>(k, l) \<in> set al. Some k \<noteq> best \<and> ri = Some k \<and> rt = Fin (completedAt l))"
      by auto
    from b have "\<not> lt_inf (completedAt l) rt" by auto
    moreover from b True have "\<forall>c. lt_inf c rt \<longrightarrow> lt_inf c ot"
      using lt_inf_trans by blast
    ultimately show ?thesis using a c True p by auto
  next
    case False
    with Cons.prems p have "oldest_scan best al (oi, ot) = (ri, rt)" by auto
    from Cons.IH [OF this]
    have a: "\<forall>(k, l) \<in> set al. Some k \<noteq> best \<longrightarrow> \<not> lt_inf (completedAt l) rt"
      and b: "\<forall>c. lt_inf c rt \<longrightarrow> lt_inf c ot"
      and c: "(ri, rt) = (oi, ot) \<or>
        (\<exists>(k, l) \<in> set al. Some k \<noteq> best \<and> ri = Some k \<and> rt = Fin (completedAt l))"
      by auto
    from False b have "Some k \<noteq> best \<longrightarrow> \<not> lt_inf (completedAt l) rt" by auto
    with a b c p show ?thesis by auto
  qed
qed

lemma find_oldest_Some:
  assumes "find_oldest s = Some i"
  shows "\<exists>l. (i, l) \<in> set (laps s) \<and> Some i \<noteq> session_best_id s \<and>
           (\<forall>(k, l') \<in> set (laps s). Some k \<noteq> session_best_id s \<longrightarrow> completedAt l \<le> completedAt l')"
proof -
  obtain rt where r: "oldest_scan (session_best_id s) (laps s) (None, PosInf) = (Some i, rt)"
    using assms by (cases "oldest_scan (session_best_id s) (laps s) (None, PosInf)")
      (simp add: find_oldest_def)
  from oldest_scan_spec [OF r]
  have a: "\<forall>(k, l) \<in> set (laps s). Some k \<noteq> session_best_id s \<longrightarrow> \<not> lt_inf (completedAt l) rt"
    and c: "\<exists>(k, l) \<in> set (laps s). Some k \<noteq> session_best_id s \<and> Some i = Some k \<and>
        rt = Fin (completedAt l)"
    by auto
  from c obtain l where l: "(i, l) \<in> set (laps s)" "Some i \<noteq> session_best_id s"
    "rt = Fin (completedAt l)" by auto
  with a have "\<forall>(k, l') \<in> set (laps s). Some k \<noteq> session_best_id s \<longrightarrow> completedAt l \<le> completedAt l'"
    by fastforce
  with l show ?thesis by blast
qed

lemma find_oldest_None:
  assumes "find_oldest s = None"
  shows "\<forall>(k, l) \<in> set (laps s). Some k = session_best_id s"
proof -
  obtain rt where r: "oldest_scan (session_best_id s) (laps s) (None, PosInf) = (None, rt)"
    using assms by (cases "oldest_scan (session_best_id s) (laps s) (None, PosInf)")
      (simp add: find_oldest_def)
  from oldest_scan_spec [OF r]
  have a: "\<forall>(k, l) \<in> set (laps s). Some k \<noteq> session_best_id s \<longrightarrow> \<not> lt_inf (completedAt l) rt"
    and c: "rt = PosInf" by auto
  then show ?thesis by auto
qed

subsection \<open>The invariant of the session best\<close>

lemma best_inv_init: "best_inv (init_storage m)"
  by (simp add: best_inv_def init_storage_def)

lemma best_inv_cong:
  "laps s' = laps s \<Longrightarrow> session_best_id s' = session_best_id s \<Longrightarrow>
   session_best_time s' = session_best_time s \<Longrightarrow> best_inv s' = best_inv s"
  by (simp only: best_inv_def)

lemma best_inv_SomeI:
  "distinct (map fst (laps s)) \<Longrightarrow> [] \<notin> fst ` set (laps s) \<Longrightarrow>
   session_best_id s = Some b \<Longrightarrow> b \<noteq> [] \<Longrightarrow> session_best_time s = Fin t \<Longrightarrow>
   map_of (laps s) b = Some bl \<Longrightarrow> lapTime bl = py_round t 3 \<Longrightarrow>
   (\<forall>(k, l) \<in> set (laps s). lapTime bl \<le> lapTime l \<and> (isSessionBest l = (k = b))) \<Longrightarrow>
   best_inv s"
  by (simp add: best_inv_def)

lemma best_inv_SomeD:
  assumes "best_inv s" "session_best_id s = Some b"
  shows "\<exists>t bl. b \<noteq> [] \<and> session_best_time s = Fin t \<and> map_of (laps s) b = Some bl \<and>
           lapTime bl = py_round t 3 \<and>
           (\<forall>(k, l) \<in> set (laps s). lapTime bl \<le> lapTime l \<and> (isSessionBest l = (k = b)))"
proof (cases "session_best_time s")
  case PosInf
  with assms show ?thesis by (simp add: best_inv_def)
next
  case (Fin t)
  show ?thesis
  proof (cases "map_of (laps s) b")
    case None
    with assms Fin show ?thesis by (simp add: best_inv_def)
  next
    case (Some bl)
    with assms Fin show ?thesis by (auto simp: best_inv_def)
  qed
qed

lemma best_inv_keys:
  "best_inv s \<Longrightarrow> distinct (map fst (laps s)) \<and> [] \<notin> fst ` set (laps s)"
  by (simp add: best_inv_def)

lemma best_inv_delete:
  assumes "best_inv s" "Some i \<noteq> session_best_id s"
  shows "best_inv (s\<lparr> laps := AList.delete i (laps s) \<rparr>)"
proof -
  let ?s1 = "s\<lparr> laps := AList.delete i (laps s) \<rparr>"
  have d: "distinct (map fst (laps ?s1))"
    using best_inv_keys [OF assms(1)] by (simp add: AList.distinct_delete)
  have sub: "set (laps ?s1) \<subseteq> set (laps s)" using set_delete_subset [of i "laps s"] by simp
  then have e: "[] \<notin> fst ` set (laps ?s1)"
    using best_inv_keys [OF assms(1)] by auto
  show ?thesis
  proof (cases "session_best_id s")
    case None
    with assms(1) have "laps s = []" by (simp add: best_inv_def)
    with assms(1) None show ?thesis by (simp add: best_inv_def)
  next
    case (Some b)
    from best_inv_SomeD [OF assms(1) Some] obtain t bl where b: "b \<noteq> []"
      "session_best_time s = Fin t" "map_of (laps s) b = Some bl" "lapTime bl = py_round t 3"
      "\<forall>(k, l) \<in> set (laps s). lapTime bl \<le> lapTime l \<and> (isSessionBest l = (k = b))"
      by blast
    from Some assms(2) have "b \<noteq> i" by auto
    then have m: "map_of (laps ?s1) b = Some bl"
      using b(3) by (simp add: AList.delete_conv')
    have "\<forall>(k, l) \<in> set (laps ?s1). lapTime bl \<le> lapTime l \<and> (isSessionBest l = (k = b))"
      using b(5) sub by (auto dest: subsetD)
    with d e m b(1,2,4) Some show ?thesis
      by (intro best_inv_SomeI [where b = b and t = t and bl = bl]) simp_all
  qed
qed

lemma best_inv_enforce_limit: "best_inv s \<Longrightarrow> best_inv (enforce_limit s)"
proof (induction s rule: enforce_limit.induct)
  case (1 s)
  show ?case
  proof (cases "max_laps s < int (length (laps s)) \<and> (\<exists>i. find_oldest s = Some i \<and> i \<noteq> [])")
    case False
    with "1.prems" show ?thesis
      by (auto simp: enforce_limit.simps [of s] split: option.splits)
  next
    case True
    then obtain i where over: "max_laps s < int (length (laps s))"
      and i: "find_oldest s = Some i" "i \<noteq> []" by blast
    let ?s1 = "s\<lparr> laps := AList.delete i (laps s) \<rparr>"
    have eq: "enforce_limit s = enforce_limit ?s1"
      using over i by (simp add: enforce_limit.simps [of s])
    from find_oldest_Some [OF i(1)] have "Some i \<noteq> session_best_id s" by blast
    with "1.prems" have "best_inv ?s1" by (rule best_inv_delete)
    from "1.IH" [OF over i this] show ?thesis unfolding eq .
  qed
qed



lemma best_inv_store:
  assumes inv: "best_inv s" and ne: "lap_id \<noteq> []" and fresh: "lap_id \<notin> fst ` set (laps s)"
    and lt: "lapTime lap = py_round t 3"
    and fl: "isSessionBest lap = lt_inf t (session_best_time s)"
  shows "best_inv (store_lap lap_id lap t s)"
proof -
  from inv have d: "distinct (map fst (laps s))" and e: "[] \<notin> fst ` set (laps s)"
    by (auto simp: best_inv_def)
  show ?thesis
  proof (cases "lt_inf t (session_best_time s)")
    case False
    then obtain t0 where t0: "session_best_time s = Fin t0" "t0 \<le> t"
      by (cases "session_best_time s") auto
    from inv t0(1) obtain b where sb: "session_best_id s = Some b"
      by (cases "session_best_id s") (auto simp: best_inv_def)
    from best_inv_SomeD [OF inv sb] t0(1) sb
    obtain bl where b: "session_best_id s = Some b" "b \<noteq> []"
      "map_of (laps s) b = Some bl" "lapTime bl = py_round t0 3"
      and a: "\<forall>(k, l) \<in> set (laps s). lapTime bl \<le> lapTime l \<and> (isSessionBest l = (k = b))"
      by auto
    from b(3) have "(b, bl) \<in> set (laps s)" by (rule map_of_SomeD)
    with fresh have nb: "lap_id \<noteq> b" by force
    have st: "store_lap lap_id lap t s = s\<lparr> laps := laps s @ [(lap_id, lap)] \<rparr>"
      using False fresh by (simp add: store_lap_def update_fresh)
    have "lapTime bl \<le> lapTime lap"
      using lt b(4) t0(2) by (simp add: py_round_mono)
    moreover have "\<not> isSessionBest lap" using fl False by simp
    moreover have "map_of (laps s @ [(lap_id, lap)]) b = Some bl"
      using b(3) by (simp add: map_add_Some_iff)
    ultimately show ?thesis
      unfolding st using d e ne fresh b t0 a nb
      by (intro best_inv_SomeI [where b = b and t = t0 and bl = bl]) auto
  next
    case True
    let ?un = "unmark_previous_best s"
    have st: "store_lap lap_id lap t s =
        s\<lparr> laps := AList.update lap_id lap ?un, session_best_id := Some lap_id,
           session_best_time := Fin t \<rparr>"
      using True by (simp add: store_lap_def)
    have keys: "map fst ?un = map fst (laps s)"
      using d by (auto simp: unmark_previous_best_def map_entry_distinct
          split: option.splits)
    then have kset: "fst ` set ?un = fst ` set (laps s)"
      by (metis list.set_map)
    have fresh': "lap_id \<notin> fst ` set ?un"
      using fresh kset by simp
    have up: "AList.update lap_id lap ?un = ?un @ [(lap_id, lap)]"
      using fresh' by (rule update_fresh)
    have slow: "\<forall>(k, l) \<in> set ?un. py_round t 3 \<le> lapTime l \<and> \<not> isSessionBest l"
    proof (cases "session_best_id s")
      case None
      with inv have "laps s = []" by (simp add: best_inv_def)
      then show ?thesis by (simp add: unmark_previous_best_def None)
    next
      case (Some b)
      from best_inv_SomeD [OF inv Some]
      obtain t0 bl where b: "session_best_time s = Fin t0" "b \<noteq> []"
        "map_of (laps s) b = Some bl" "lapTime bl = py_round t0 3"
        and a: "\<forall>(k, l) \<in> set (laps s). lapTime bl \<le> lapTime l \<and> (isSessionBest l = (k = b))"
        by blast
      from True b(1) have "t < t0" by simp
      then have le: "py_round t 3 \<le> lapTime bl" using b(4) by (simp add: py_round_mono)
      from b(3) have "b \<in> fst ` set (laps s)" by (force dest: map_of_SomeD)
      then have un: "?un = map (\<lambda>(k, v). if k = b then (k, v\<lparr> isSessionBest := False \<rparr>)
          else (k, v)) (laps s)"
        using Some b(2) d by (simp add: unmark_previous_best_def map_entry_distinct)
      show ?thesis unfolding un using a le by fastforce
    qed
    have "distinct (map fst (?un @ [(lap_id, lap)]))"
      using keys d fresh by simp
    moreover have "[] \<notin> fst ` set (?un @ [(lap_id, lap)])"
      using kset e ne by (simp add: image_Un)
    moreover have "map_of (?un @ [(lap_id, lap)]) lap_id = Some lap"
      using fresh' by (simp add: map_add_Some_iff map_of_eq_None_iff)
    ultimately show ?thesis
      unfolding st up using slow lt fl True ne fresh'
      by (intro best_inv_SomeI [where b = lap_id and t = t and bl = lap]) auto
  qed
qed




lemma best_inv_upd:
  "best_inv (s\<lparr> max_laps := a1 \<rparr>) = best_inv s"
  "best_inv (s\<lparr> current_lap_points := a2 \<rparr>) = best_inv s"
  "best_inv (s\<lparr> current_lap_number := a3 \<rparr>) = best_inv s"
  "best_inv (s\<lparr> recording_active := a4 \<rparr>) = best_inv s"
  "best_inv (s\<lparr> last_capture_time := a5 \<rparr>) = best_inv s"
  "best_inv (s\<lparr> last_distance_pct := a6 \<rparr>) = best_inv s"
  "best_inv (s\<lparr> pending_lap_points := a7 \<rparr>) = best_inv s"
  "best_inv (s\<lparr> pending_lap_number := a8 \<rparr>) = best_inv s"
  "best_inv (s\<lparr> pending_lap_track := a9 \<rparr>) = best_inv s"
  "best_inv (s\<lparr> pending_lap_car := a10 \<rparr>) = best_inv s"
  "best_inv (s\<lparr> pending_lap_created_at := a11 \<rparr>) = best_inv s"
  by (rule best_inv_cong, simp, simp, simp)+

lemma best_inv_complete_lap:
  assumes "best_inv s" "i \<noteq> []" "i \<notin> fst ` set (laps s)"
  shows "best_inv (snd (complete_lap i ms t tr car s))"
proof (cases "recording_active s \<and> 100 \<le> length (current_lap_points s) \<and> 10 \<le> t \<and> t \<le> 1200")
  case False
  then have "complete_lap i ms t tr car s = (None, s\<lparr> recording_active := False \<rparr>) \<or>
      complete_lap i ms t tr car s =
        (None, s\<lparr> recording_active := False, current_lap_points := [] \<rparr>)"
    by (auto simp: complete_lap_def)
  with assms(1) show ?thesis by (auto simp: best_inv_upd)
next
  case True
  define lap where "lap = \<lparr> lapId = i, lapNumber = current_lap_number s, lapTime = py_round t 3,
                  isSessionBest = lt_inf t (session_best_time s), trackName = tr, carName = car,
                  completedAt = ms, points = current_lap_points s,
                  deltaToSessionBest = delta_to_best t (session_best_time s) \<rparr>"
  have "best_inv (store_lap i lap t s)"
    using assms by (rule best_inv_store) (simp_all add: lap_def)
  then have "best_inv (enforce_limit (store_lap i lap t s))" by (rule best_inv_enforce_limit)
  moreover have "snd (complete_lap i ms t tr car s) =
      (enforce_limit (store_lap i lap t s))\<lparr> recording_active := False, current_lap_points := [] \<rparr>"
    using True by (simp add: complete_lap_stored lap_def Let_def)
  ultimately show ?thesis by (simp add: best_inv_upd)
qed

lemma best_inv_save_pending_lap:
  assumes "best_inv s" "i \<noteq> []" "i \<notin> fst ` set (laps s)"
  shows "best_inv (snd (save_pending_lap i ms t s))"
proof (cases "100 \<le> length (pending_lap_points s) \<and> 10 \<le> t \<and> t \<le> 1200")
  case False
  then have "save_pending_lap i ms t s = (None, s\<lparr> pending_lap_points := [] \<rparr>) \<or>
      save_pending_lap i ms t s =
        (None, s\<lparr> pending_lap_points := [], pending_lap_number := 0 \<rparr>)"
    by (auto simp: save_pending_lap_def)
  with assms(1) show ?thesis by (auto simp: best_inv_upd)
next
  case True
  define lap where "lap = \<lparr> lapId = i, lapNumber = pending_lap_number s, lapTime = py_round t 3,
                  isSessionBest = lt_inf t (session_best_time s),
                  trackName = pending_lap_track s, carName = pending_lap_car s,
                  completedAt = ms, points = pending_lap_points s,
                  deltaToSessionBest = delta_to_best t (session_best_time s) \<rparr>"
  let ?s3 = "(store_lap i lap t s)\<lparr> pending_lap_points := [], pending_lap_number := 0,
                        pending_lap_track := [], pending_lap_car := [] \<rparr>"
  have "best_inv (store_lap i lap t s)"
    using assms by (rule best_inv_store) (simp_all add: lap_def)
  then have "best_inv ?s3" by (simp add: best_inv_upd)
  then have "best_inv (enforce_limit ?s3)" by (rule best_inv_enforce_limit)
  moreover have "snd (save_pending_lap i ms t s) = enforce_limit ?s3"
    using True by (simp add: save_pending_lap_stored lap_def Let_def)
  ultimately show ?thesis by simp
qed



lemma best_inv_delete_lap: "best_inv s \<Longrightarrow> best_inv (snd (delete_lap i s))"
  by (auto simp: delete_lap_def intro: best_inv_delete)

lemma best_inv_reset_session: "best_inv (reset_session s)"
  by (simp add: best_inv_def reset_session_def)

lemma best_inv_apply_op:
  assumes "best_inv s" "op_id_fresh c s"
  shows "best_inv (snd (apply_op c s))"
proof (cases c)
  case (CompleteLap i ms t tr car)
  with assms show ?thesis by (simp only: snd_apply_op) (simp add: best_inv_complete_lap)
next
  case (SavePendingLap i ms t)
  with assms show ?thesis by (simp only: snd_apply_op) (simp add: best_inv_save_pending_lap)
next
  case (DeleteLap i)
  with assms show ?thesis by (simp only: snd_apply_op) (simp add: best_inv_delete_lap)
next
  case EnforceLimit
  with assms show ?thesis by (simp add: best_inv_enforce_limit)
next
  case ResetSession
  then show ?thesis by (simp add: best_inv_reset_session)
next
  case (StartLap n)
  with assms show ?thesis by (simp add: start_lap_def best_inv_upd)
next
  case (AddPoint p)
  with assms show ?thesis by (simp add: add_point_def best_inv_upd)
next
  case ClearPendingLap
  with assms show ?thesis by (simp add: clear_pending_lap_def best_inv_upd)
next
  case (SetPending pts n tr car t)
  with assms show ?thesis by (simp add: set_pending_def best_inv_upd)
qed


lemma best_inv_run_ops:
  "best_inv s \<Longrightarrow> fresh_ids cs s \<Longrightarrow> best_inv (snd (run_ops cs s))"
proof (induction cs arbitrary: s)
  case Nil
  then show ?case by simp
next
  case (Cons c cs)
  from Cons.prems have "best_inv (snd (apply_op c s))" "fresh_ids cs (snd (apply_op c s))"
    by (simp_all add: best_inv_apply_op)
  from Cons.IH [OF this] show ?case by (simp only: snd_run_ops_Cons)
qed


subsection \<open>Evaluation of the sample session\<close>

lemmas eval_defs = pending_100_def set_pending_def init_storage_def save_pending_lap_def Let_def
      unmark_previous_best_def enforce_limit.simps delete_lap_def two_laps_def
      delta_to_best_def



subsection \<open>Eviction\<close>

lemma length_delete_distinct:
  "distinct (map fst al) \<Longrightarrow> k \<in> fst ` set al \<Longrightarrow>
     Suc (length (AList.delete k al)) = length al"
proof (induction al)
  case Nil
  then show ?case by simp
next
  case (Cons p al)
  show ?case
  proof (cases "fst p = k")
    case True
    with Cons.prems have "k \<notin> fst ` set al" by auto
    then have "AList.delete k al = al" by (rule AList.delete_id)
    with True show ?thesis by (cases p) simp
  next
    case False
    with Cons.prems have "k \<in> fst ` set al" "distinct (map fst al)" by auto
    from Cons.IH [OF this(2) this(1)] False show ?thesis by (cases p) simp
  qed
qed

lemma removes_oldest_step:
  assumes d: "distinct (map fst (laps s))" and f: "find_oldest s = Some i"
  shows "removes_oldest_non_best s (s\<lparr> laps := AList.delete i (laps s) \<rparr>)"
proof -
  from find_oldest_Some [OF f] obtain l where l: "(i, l) \<in> set (laps s)"
    "Some i \<noteq> session_best_id s"
    "\<forall>(k, l') \<in> set (laps s). Some k \<noteq> session_best_id s \<longrightarrow> completedAt l \<le> completedAt l'"
    by blast
  from l(1) have "i \<in> fst ` set (laps s)" by force
  from length_delete_distinct [OF d this]
  have len: "Suc (length (AList.delete i (laps s))) = length (laps s)" .
  have m: "map_of (AList.delete i (laps s)) i = None" by (simp add: AList.delete_conv')
  show ?thesis
    unfolding removes_oldest_non_best_def
    by (rule bexI [OF _ l(1)]) (simp add: l(2) l(3) len m)
qed

lemma enforce_limit_steps:
  "distinct (map fst (laps s)) \<Longrightarrow> removes_oldest_non_best\<^sup>*\<^sup>* s (enforce_limit s)"
proof (induction s rule: enforce_limit.induct)
  case (1 s)
  show ?case
  proof (cases "max_laps s < int (length (laps s)) \<and> (\<exists>i. find_oldest s = Some i \<and> i \<noteq> [])")
    case False
    then have "enforce_limit s = s"
      by (auto simp: enforce_limit.simps [of s] split: option.splits)
    then show ?thesis by simp
  next
    case True
    then obtain i where over: "max_laps s < int (length (laps s))"
      and i: "find_oldest s = Some i" "i \<noteq> []" by blast
    let ?s1 = "s\<lparr> laps := AList.delete i (laps s) \<rparr>"
    have eq: "enforce_limit s = enforce_limit ?s1"
      using over i by (simp add: enforce_limit.simps [of s])
    have "distinct (map fst (laps ?s1))" using "1.prems" by (simp add: AList.distinct_delete)
    from "1.IH" [OF over i this] removes_oldest_step [OF "1.prems" i(1)]
    show ?thesis unfolding eq by (rule converse_rtranclp_into_rtranclp [rotated])
  qed
qed

lemma enforce_limit_keeps_best:
  "session_best_id s = Some b \<Longrightarrow> map_of (laps (enforce_limit s)) b = map_of (laps s) b"
proof (induction s rule: enforce_limit.induct)
  case (1 s)
  show ?case
  proof (cases "max_laps s < int (length (laps s)) \<and> (\<exists>i. find_oldest s = Some i \<and> i \<noteq> [])")
    case False
    then have "enforce_limit s = s"
      by (auto simp: enforce_limit.simps [of s] split: option.splits)
    then show ?thesis by simp
  next
    case True
    then obtain i where over: "max_laps s < int (length (laps s))"
      and i: "find_oldest s = Some i" "i \<noteq> []" by blast
    let ?s1 = "s\<lparr> laps := AList.delete i (laps s) \<rparr>"
    have eq: "enforce_limit s = enforce_limit ?s1"
      using over i by (simp add: enforce_limit.simps [of s])
    from find_oldest_Some [OF i(1)] "1.prems" have "i \<noteq> b" by auto
    then have "map_of (laps ?s1) b = map_of (laps s) b" by (simp add: AList.delete_conv')
    moreover have "session_best_id ?s1 = Some b" using "1.prems" by simp
    from "1.IH" [OF over i this]
    have "map_of (laps (enforce_limit ?s1)) b = map_of (laps ?s1) b" .
    ultimately show ?thesis unfolding eq by simp
  qed
qed

lemma enforce_limit_stops:
  "[] \<notin> fst ` set (laps s) \<Longrightarrow>
     int (length (laps (enforce_limit s))) \<le> max_laps s \<or>
     (\<forall>(k, l) \<in> set (laps (enforce_limit s)). Some k = session_best_id s)"
proof (induction s rule: enforce_limit.induct)
  case (1 s)
  show ?case
  proof (cases "max_laps s < int (length (laps s))")
    case False
    then show ?thesis by (simp add: enforce_limit.simps [of s])
  next
    case over: True
    show ?thesis
    proof (cases "find_oldest s")
      case None
      with over have "enforce_limit s = s" by (simp add: enforce_limit.simps [of s])
      with find_oldest_None [OF None] show ?thesis by simp
    next
      case (Some i)
      from find_oldest_key [OF Some] "1.prems" have ne: "i \<noteq> []" by force
      let ?s1 = "s\<lparr> laps := AList.delete i (laps s) \<rparr>"
      have eq: "enforce_limit s = enforce_limit ?s1"
        using over Some ne by (simp add: enforce_limit.simps [of s])
      have "[] \<notin> fst ` set (laps ?s1)"
        using "1.prems" set_delete_subset [of i "laps s"] by auto
      from "1.IH" [OF over Some ne this] show ?thesis unfolding eq by simp
    qed
  qed
qed

lemma all_best_length:
  assumes "distinct (map fst al)" "\<forall>(k, l) \<in> set al. Some k = b"
  shows "length al \<le> 1"
proof (cases al)
  case Nil
  then show ?thesis by simp
next
  case (Cons p al')
  show ?thesis
  proof (cases al')
    case Nil
    with Cons show ?thesis by simp
  next
    case (Cons q al'')
    with \<open>al = p # al'\<close> assms(2) have "Some (fst p) = b" "Some (fst q) = b" by auto
    then have "fst p = fst q" by auto
    with Cons \<open>al = p # al'\<close> assms(1) show ?thesis by simp
  qed
qed

lemma enforce_limit_length:
  assumes "distinct (map fst (laps s))" "[] \<notin> fst ` set (laps s)"
  shows "int (length (laps (enforce_limit s))) \<le> max (max_laps s) 1"
proof -
  have d: "distinct (map fst (laps (enforce_limit s)))"
  proof -
    have "removes_oldest_non_best\<^sup>*\<^sup>* s (enforce_limit s)"
      using assms(1) by (rule enforce_limit_steps)
    then show ?thesis
    proof (induction rule: rtranclp_induct)
      case base
      then show ?case using assms(1) .
    next
      case (step y z)
      from step.hyps(2) obtain i where "laps z = AList.delete i (laps y)"
        by (auto simp: removes_oldest_non_best_def)
      with step.IH show ?case by (simp add: AList.distinct_delete)
    qed
  qed
  from enforce_limit_stops [OF assms(2)] show ?thesis
  proof
    assume "int (length (laps (enforce_limit s))) \<le> max_laps s"
    then show ?thesis by simp
  next
    assume "\<forall>(k, l) \<in> set (laps (enforce_limit s)). Some k = session_best_id s"
    with d have "length (laps (enforce_limit s)) \<le> 1" by (rule all_best_length)
    then show ?thesis by simp
  qed
qed

subsection \<open>The limit on the stored laps\<close>

lemma store_lap_max_laps: "max_laps (store_lap i lap t s) = max_laps s"
  by (simp add: store_lap_def)

lemma complete_lap_Some:
  "fst (complete_lap i ms t tr car s) \<noteq> None \<Longrightarrow>
     recording_active s \<and> 100 \<le> length (current_lap_points s) \<and> 10 \<le> t \<and> t \<le> 1200"
  using complete_lap_rejected [of s t i ms tr car] by fastforce

lemma save_pending_lap_Some:
  "fst (save_pending_lap i ms t s) \<noteq> None \<Longrightarrow>
     100 \<le> length (pending_lap_points s) \<and> 10 \<le> t \<and> t \<le> 1200"
  using save_pending_lap_rejected [of s t i ms] by fastforce

lemma complete_lap_length:
  assumes "best_inv s" "i \<noteq> []" "i \<notin> fst ` set (laps s)"
    and "fst (complete_lap i ms t tr car s) \<noteq> None"
  shows "int (length (laps (snd (complete_lap i ms t tr car s)))) \<le> max (max_laps s) 1"
proof -
  define lap where "lap = \<lparr> lapId = i, lapNumber = current_lap_number s, lapTime = py_round t 3,
                  isSessionBest = lt_inf t (session_best_time s), trackName = tr, carName = car,
                  completedAt = ms, points = current_lap_points s,
                  deltaToSessionBest = delta_to_best t (session_best_time s) \<rparr>"
  have "best_inv (store_lap i lap t s)"
    using assms(1-3) by (rule best_inv_store) (simp_all add: lap_def)
  from best_inv_keys [OF this]
  have "int (length (laps (enforce_limit (store_lap i lap t s)))) \<le>
      max (max_laps (store_lap i lap t s)) 1"
    by (intro enforce_limit_length) simp_all
  moreover have "snd (complete_lap i ms t tr car s) =
      (enforce_limit (store_lap i lap t s))\<lparr> recording_active := False, current_lap_points := [] \<rparr>"
    using complete_lap_Some [OF assms(4)] by (simp add: complete_lap_stored lap_def Let_def)
  ultimately show ?thesis by (simp add: store_lap_max_laps)
qed

lemma save_pending_lap_length:
  assumes "best_inv s" "i \<noteq> []" "i \<notin> fst ` set (laps s)"
    and "fst (save_pending_lap i ms t s) \<noteq> None"
  shows "int (length (laps (snd (save_pending_lap i ms t s)))) \<le> max (max_laps s) 1"
proof -
  define lap where "lap = \<lparr> lapId = i, lapNumber = pending_lap_number s, lapTime = py_round t 3,
                  isSessionBest = lt_inf t (session_best_time s),
                  trackName = pending_lap_track s, carName = pending_lap_car s,
                  completedAt = ms, points = pending_lap_points s,
                  deltaToSessionBest = delta_to_best t (session_best_time s) \<rparr>"
  let ?s3 = "(store_lap i lap t s)\<lparr> pending_lap_points := [], pending_lap_number := 0,
                        pending_lap_track := [], pending_lap_car := [] \<rparr>"
  have "best_inv (store_lap i lap t s)"
    using assms(1-3) by (rule best_inv_store) (simp_all add: lap_def)
  from best_inv_keys [OF this]
  have "int (length (laps (enforce_limit ?s3))) \<le> max (max_laps ?s3) 1"
    by (intro enforce_limit_length) simp_all
  moreover have "snd (save_pending_lap i ms t s) = enforce_limit ?s3"
    using save_pending_lap_Some [OF assms(4)]
    by (simp add: save_pending_lap_stored lap_def Let_def)
  ultimately show ?thesis by (simp add: store_lap_max_laps)
qed

lemma before_third_fresh: "fresh_ids before_third (init_storage 2)"
  by (simp add: eval_defs before_third_def)

lemma before_third_keys:
  "map fst (laps (snd (run_ops before_third (init_storage 2)))) = [''aaaaaaaa'', ''bbbbbbbb'']"
  by (simp add: eval_defs before_third_def)

lemma third_stored:
  "fst (save_pending_lap ''cccccccc'' 3000 110 (snd (run_ops before_third (init_storage 2))))
     \<noteq> None \<and>
   map fst (laps (snd (save_pending_lap ''cccccccc'' 3000 110
     (snd (run_ops before_third (init_storage 2)))))) = [''bbbbbbbb'', ''cccccccc''] \<and>
   session_best_id (snd (run_ops before_third (init_storage 2))) = Some ''bbbbbbbb'' \<and>
   max_laps (snd (run_ops before_third (init_storage 2))) = 2"
  by (simp add: eval_defs before_third_def find_oldest_def)

subsection \<open>Recording a rising sequence of points\<close>

lemma add_points_Cons: "add_points (p # ps) s = add_points ps (add_point p s)"
  by (simp add: add_points_def)

lemma add_points_rising:
  "recording_active s \<Longrightarrow> rising (last_distance_pct s) ps \<Longrightarrow>
     add_points ps s =
       s\<lparr> current_lap_points := current_lap_points s @ ps,
          last_distance_pct := last (last_distance_pct s # map distancePct ps) \<rparr>"
proof (induction ps arbitrary: s)
  case Nil
  then show ?case by (simp add: add_points_def)
next
  case (Cons p ps)
  let ?s1 = "add_point p s"
  from Cons.prems have s1: "?s1 = s\<lparr> current_lap_points := current_lap_points s @ [p],
      last_distance_pct := distancePct p \<rparr>"
    by (simp add: add_point_def)
  with Cons.prems have "recording_active ?s1" "rising (last_distance_pct ?s1) ps" by simp_all
  from Cons.IH [OF this] show ?case unfolding add_points_Cons s1 by simp
qed

lemma rising_map_mono:
  "(\<And>i j. i \<le> j \<Longrightarrow> f i \<le> f j) \<Longrightarrow> d \<le> distancePct (g (f a)) \<Longrightarrow>
   (\<And>x y. x \<le> y \<Longrightarrow> distancePct (g x) \<le> distancePct (g y)) \<Longrightarrow>
   rising d (map (\<lambda>i. g (f i)) [a ..< b])"
proof (induction "b - a" arbitrary: a d)
  case 0
  then show ?case by simp
next
  case (Suc n)
  then have ab: "a < b" by simp
  then have up: "[a ..< b] = a # [Suc a ..< b]" by (simp add: upt_conv_Cons)
  have "rising (distancePct (g (f a))) (map (\<lambda>i. g (f i)) [Suc a ..< b])"
  proof (rule Suc.hyps(1))
    show "n = b - Suc a" using Suc.hyps(2) by simp
    show "\<And>i j. i \<le> j \<Longrightarrow> f i \<le> f j" by (rule Suc.prems(1))
    show "distancePct (g (f a)) \<le> distancePct (g (f (Suc a)))"
      by (intro Suc.prems(3) Suc.prems(1)) simp
    show "\<And>x y. x \<le> y \<Longrightarrow> distancePct (g x) \<le> distancePct (g y)" by (rule Suc.prems(3))
  qed
  with Suc.prems(2) show ?case unfolding up by simp
qed

lemma rising_points_rising: "rising 0 rising_points"
  unfolding rising_points_def
  by (rule rising_map_mono [where g = sample_point and f = "\<lambda>i. real i * 99 / 14900"])
     (simp_all add: sample_point_def divide_right_mono)

lemma rising_points_length: "length rising_points = 150"
  by (simp add: rising_points_def)

subsection \<open>Two laps on a new store\<close>

lemma enforce_limit_within: "int (length (laps s)) \<le> max_laps s \<Longrightarrow> enforce_limit s = s"
  by (simp add: enforce_limit.simps [of s])

lemma start_add_points:
  assumes "rising 0 pts"
  shows "add_points pts (start_lap n s) =
     s\<lparr> current_lap_points := pts, current_lap_number := n, recording_active := True,
        last_distance_pct := last (0 # map distancePct pts) \<rparr>"
proof -
  have "recording_active (start_lap n s)" "rising (last_distance_pct (start_lap n s)) pts"
    using assms by (simp_all add: start_lap_def)
  from add_points_rising [OF this] show ?thesis by (simp add: start_lap_def)
qed

lemma first_lap_general:
  assumes pts: "rising 0 pts" "100 \<le> length pts" and t: "10 \<le> t" "t \<le> 1200"
    and m: "1 \<le> m"
  shows "complete_lap i ms t tr car (add_points pts (start_lap n (init_storage m))) =
     (Some \<lparr> lapId = i, lapNumber = n, lapTime = py_round t 3, isSessionBest = True,
             trackName = tr, carName = car, completedAt = ms, points = pts,
             deltaToSessionBest = 0 \<rparr>,
      (init_storage m)\<lparr> laps := [(i, \<lparr> lapId = i, lapNumber = n, lapTime = py_round t 3,
             isSessionBest = True, trackName = tr, carName = car, completedAt = ms,
             points = pts, deltaToSessionBest = 0 \<rparr>)],
         session_best_id := Some i, session_best_time := Fin t,
         current_lap_points := [], current_lap_number := n, recording_active := False,
         last_distance_pct := last (0 # map distancePct pts) \<rparr>)"
proof -
  have s1: "add_points pts (start_lap n (init_storage m)) =
      \<lparr> max_laps = m, laps = [], session_best_id = None, session_best_time = PosInf,
        current_lap_points = pts, current_lap_number = n, recording_active = True,
        last_capture_time = 0, last_distance_pct = last (0 # map distancePct pts),
        pending_lap_points = [], pending_lap_number = 0, pending_lap_track = [],
        pending_lap_car = [], pending_lap_created_at = 0 \<rparr>"
    by (simp only: start_add_points [OF pts(1)]) (simp add: init_storage_def)
  show ?thesis
    using pts(2) t m
    by (simp only: s1)
       (simp add: complete_lap_def Let_def unmark_previous_best_def delta_to_best_def
          enforce_limit.simps init_storage_def)
qed

lemma second_lap_general:
  assumes pts: "rising 0 pts" "100 \<le> length pts" and t: "10 \<le> t2" "t2 < t1" "t1 \<le> 1200"
    and ids: "i1 \<noteq> []" "i1 \<noteq> i2" and m: "2 \<le> m"
  shows "complete_lap i2 ms2 t2 tr car (add_points pts (start_lap n2
      ((init_storage m)\<lparr> laps := [(i1, l1)],
         session_best_id := Some i1, session_best_time := Fin t1,
         current_lap_points := [], current_lap_number := n1, recording_active := False,
         last_distance_pct := d \<rparr>))) =
     (Some \<lparr> lapId = i2, lapNumber = n2, lapTime = py_round t2 3, isSessionBest = True,
             trackName = tr, carName = car, completedAt = ms2, points = pts,
             deltaToSessionBest = py_round (t2 - t1) 3 \<rparr>,
      (init_storage m)\<lparr> laps := [(i1, l1\<lparr> isSessionBest := False \<rparr>),
           (i2, \<lparr> lapId = i2, lapNumber = n2, lapTime = py_round t2 3,
             isSessionBest = True, trackName = tr, carName = car, completedAt = ms2,
             points = pts, deltaToSessionBest = py_round (t2 - t1) 3 \<rparr>)],
         session_best_id := Some i2, session_best_time := Fin t2,
         current_lap_points := [], current_lap_number := n2, recording_active := False,
         last_distance_pct := last (0 # map distancePct pts) \<rparr>)"
  using pts(2) t ids m
  by (simp only: start_add_points [OF pts(1)])
     (simp add: complete_lap_def Let_def unmark_previous_best_def delta_to_best_def
        enforce_limit.simps init_storage_def)

section \<open>Properties\<close>

subsection \<open>The recorder\<close>

text \<open>
  C9. \<open>add_point\<close> does nothing while recording is not active. While it is active, the
  point is appended to the buffer of the current lap exactly when its \<open>distancePct\<close> is at
  least \<open>last_distance_pct\<close> or below 0.05; an append sets \<open>last_distance_pct\<close> to the
  point's \<open>distancePct\<close>, and a point that is not appended leaves the state as it was.
\<close>

theorem add_point_spec:
  "(\<not> recording_active s \<longrightarrow> add_point p s = s) \<and>
   (recording_active s \<longrightarrow>
      ((current_lap_points (add_point p s) = current_lap_points s @ [p])
         = (last_distance_pct s \<le> distancePct p \<or> distancePct p < 5 / 100)) \<and>
      (current_lap_points (add_point p s) = current_lap_points s @ [p] \<longrightarrow>
         last_distance_pct (add_point p s) = distancePct p) \<and>
      (current_lap_points (add_point p s) \<noteq> current_lap_points s @ [p] \<longrightarrow>
         add_point p s = s))"
  by (simp add: add_point_def)

theorem add_point_spec_witness:
  "recording_active (start_lap 1 (init_storage 10)) \<and>
   current_lap_points (add_point (sample_point (1 / 2)) (start_lap 1 (init_storage 10)))
     = [sample_point (1 / 2)] \<and>
   last_distance_pct (add_point (sample_point (1 / 2)) (start_lap 1 (init_storage 10))) = 1 / 2"
  using add_point_spec [of "start_lap 1 (init_storage 10)" "sample_point (1 / 2)"]
  by (simp add: start_lap_def init_storage_def sample_point_def)

subsection \<open>Validation of completed laps\<close>




subsection \<open>The session best\<close>



subsection \<open>The limit on the stored laps and eviction\<close>

text \<open>
  C3, as the code has it. After a \<open>complete_lap\<close> or \<open>save_pending_lap\<close> call that stores
  a lap (under a new id, in a state that satisfies the invariant), the number of stored
  laps is at most the larger of \<open>max_laps\<close> and 1, hence at most \<open>max_laps\<close> whenever
  \<open>max_laps\<close> is at least 1. \<open>_enforce_limit\<close> is a sequence of single removals, each of a
  stored lap that is not the session best and whose \<open>completedAt\<close> is smallest among the
  laps that are not the session best; the lap named by \<open>session_best_id\<close> is never removed.
\<close>

theorem limit_and_eviction:
  "(best_inv s \<and> i \<noteq> [] \<and> i \<notin> fst ` set (laps s) \<longrightarrow>
      (fst (complete_lap i ms t tr car s) \<noteq> None \<longrightarrow>
         int (length (laps (snd (complete_lap i ms t tr car s)))) \<le> max (max_laps s) 1) \<and>
      (fst (save_pending_lap i ms t s) \<noteq> None \<longrightarrow>
         int (length (laps (snd (save_pending_lap i ms t s)))) \<le> max (max_laps s) 1)) \<and>
   (distinct (map fst (laps s0)) \<longrightarrow> removes_oldest_non_best\<^sup>*\<^sup>* s0 (enforce_limit s0)) \<and>
   (session_best_id s0 = Some b \<longrightarrow>
      map_of (laps (enforce_limit s0)) b = map_of (laps s0) b)"
  using complete_lap_length [of s i ms t tr car] save_pending_lap_length [of s i ms t]
    enforce_limit_steps [of s0] enforce_limit_keeps_best [of s0 b]
  by blast

theorem limit_and_eviction_witness:
  "best_inv (snd (run_ops before_third (init_storage 2))) \<and>
   ''cccccccc'' \<notin> fst ` set (laps (snd (run_ops before_third (init_storage 2)))) \<and>
   fst (save_pending_lap ''cccccccc'' 3000 110 (snd (run_ops before_third (init_storage 2))))
     \<noteq> None \<and>
   map fst (laps (snd (save_pending_lap ''cccccccc'' 3000 110
     (snd (run_ops before_third (init_storage 2)))))) = [''bbbbbbbb'', ''cccccccc''] \<and>
   int (length (laps (snd (save_pending_lap ''cccccccc'' 3000 110
     (snd (run_ops before_third (init_storage 2))))))) \<le> 2 \<and>
   distinct (map fst (laps (snd (run_ops before_third (init_storage 2))))) \<and>
   session_best_id (snd (run_ops before_third (init_storage 2))) = Some ''bbbbbbbb'' \<and>
   removes_oldest_non_best\<^sup>*\<^sup>* (snd (run_ops before_third (init_storage 2)))
     (enforce_limit (snd (run_ops before_third (init_storage 2))))"
proof -
  let ?s = "snd (run_ops before_third (init_storage 2))"
  have inv: "best_inv ?s"
    using best_inv_run_ops [OF best_inv_init before_third_fresh] .
  have "''cccccccc'' \<notin> set (map fst (laps ?s))"
    by (simp only: before_third_keys) simp
  then have fresh: "''cccccccc'' \<notin> fst ` set (laps ?s)" by simp
  have d: "distinct (map fst (laps ?s))" using before_third_keys by simp
  show ?thesis
    using limit_and_eviction [of ?s "''cccccccc''" 3000 110 "[]" "[]" ?s "''bbbbbbbb''"]
      inv fresh d third_stored
    by simp
qed

text \<open>
  With \<open>max_laps = 0\<close> the first stored lap is the session best, eviction stops rather
  than remove it, and one lap stays stored: more than \<open>max_laps\<close>.
\<close>

theorem limit_counterexample:
  "fst (save_pending_lap ''a1b2c3d4'' 1000 95 (snd (run_ops [pending_100] (init_storage 0))))
     \<noteq> None \<and>
   \<not> int (length (laps (snd (save_pending_lap ''a1b2c3d4'' 1000 95
         (snd (run_ops [pending_100] (init_storage 0))))))) \<le>
       max_laps (snd (save_pending_lap ''a1b2c3d4'' 1000 95
         (snd (run_ops [pending_100] (init_storage 0)))))"
  by (simp add: eval_defs find_oldest_def)

end
